theory Spec2Isabelle
  imports Complex_Main "HOL-Library.Word"
begin

section \<open>Chunk sender (server/index.js)\<close>

text \<open>
  The sender lives in the closure of \<open>peerConnection.ondatachannel\<close>: the variables
  \<open>streamingActive\<close>, \<open>chunkTimeoutId\<close> and \<open>chunkIndex\<close> are its state. Everything the
  callbacks read from the platform (the channel's \<open>readyState\<close>, the connection's
  \<open>connectionState\<close>, the \<open>bufferedAmount\<close> gauge, whether \<open>dataChannel.send\<close> throws) is
  an observation handed to the callback. The messages given to \<open>dataChannel.send\<close> are
  logged in \<open>sent\<close>, oldest first.
\<close>

type_synonym byte = "8 word"

definition CHUNK_SIZE :: nat where
  "CHUNK_SIZE = 64 * 1024"

datatype ready_state = RS_connecting | RS_open | RS_closing | RS_closed

datatype connection_state =
  CS_new | CS_connecting | CS_connected | CS_disconnected | CS_failed | CS_closed

datatype message =
  Metadata nat nat nat
| Binary "byte list"
| Complete
| ErrorMsg string

datatype exn = Exn string

record channel_env =
  readyState :: ready_state
  connectionState :: connection_state
  bufferedAmount :: nat
  sendThrows :: bool

record sender =
  streamingActive :: bool
  chunkTimeout :: "nat option"
  chunkIndex :: nat
  sent :: "message list"
  channelClosed :: bool
  uncaught :: "exn option"

text \<open>
  \<open>chunkTimeout\<close> is the pending timer with its delay in milliseconds; a timer that has
  fired is no longer pending (clearing its stale id is a no-op in the source).
  \<open>uncaught\<close> records an exception that escaped a timer callback.
\<close>

definition initial_sender :: sender where
  "initial_sender =
     \<lparr>streamingActive = True, chunkTimeout = None, chunkIndex = 0, sent = [],
      channelClosed = False, uncaught = None\<rparr>"

text \<open>\<open>Math.ceil(audioBuffer.length / CHUNK_SIZE)\<close>: the quotient by a power of two is exact.\<close>

definition totalChunks :: "byte list \<Rightarrow> nat" where
  "totalChunks audioBuffer = (length audioBuffer + (CHUNK_SIZE - 1)) div CHUNK_SIZE"

text \<open>\<open>buffer.slice(start, end)\<close> for non-negative bounds.\<close>

definition buffer_slice :: "'a list \<Rightarrow> nat \<Rightarrow> nat \<Rightarrow> 'a list" where
  "buffer_slice xs start end = take (end - start) (drop start xs)"

definition chunkAt :: "byte list \<Rightarrow> nat \<Rightarrow> byte list" where
  "chunkAt audioBuffer i =
     (let start = i * CHUNK_SIZE;
          end = min (start + CHUNK_SIZE) (length audioBuffer)
      in buffer_slice audioBuffer start end)"

text \<open>\<open>dataChannel.send\<close>: an exception carries the state it was raised in.\<close>

definition send :: "channel_env \<Rightarrow> message \<Rightarrow> sender \<Rightarrow> (exn \<times> sender) + sender" where
  "send e m s =
     (if sendThrows e then Inl (Exn ''send failed'', s)
      else Inr (s\<lparr>sent := sent s @ [m]\<rparr>))"

definition schedule :: "byte list \<Rightarrow> sender \<Rightarrow> sender" where
  "schedule audioBuffer s =
     (if chunkIndex s < totalChunks audioBuffer \<and> streamingActive s
      then s\<lparr>chunkTimeout := Some 50\<rparr> else s)"

definition sendChunk :: "byte list \<Rightarrow> channel_env \<Rightarrow> sender \<Rightarrow> (exn \<times> sender) + sender" where
  "sendChunk audioBuffer e s =
     (if \<not> streamingActive s \<or> readyState e \<noteq> RS_open \<or>
         connectionState e = CS_failed \<or> connectionState e = CS_disconnected \<or>
         connectionState e = CS_closed
      then Inr (s\<lparr>chunkTimeout := None\<rparr>)
      else if chunkIndex s \<ge> totalChunks audioBuffer
      then (case send e Complete s of
              Inl x \<Rightarrow> Inl x
            | Inr s' \<Rightarrow> Inr (s'\<lparr>streamingActive := False\<rparr>))
      else if bufferedAmount e < 256 * 1024
      then (case send e (Binary (chunkAt audioBuffer (chunkIndex s))) s of
              Inl (err, s') \<Rightarrow> Inr (s'\<lparr>streamingActive := False\<rparr>)
            | Inr s' \<Rightarrow> Inr (schedule audioBuffer (s'\<lparr>chunkIndex := chunkIndex s' + 1\<rparr>)))
      else Inr (schedule audioBuffer s))"

text \<open>
  The asset on disk: \<open>statSync\<close> fails on a missing file, \<open>readFileSync\<close> may throw with
  a message, otherwise the bytes are read.
\<close>

datatype asset = NoFile | Unreadable string | File "byte list"

text \<open>The outer \<open>catch\<close> of \<open>dataChannel.onopen\<close>.\<close>

definition onopen_catch :: "channel_env \<Rightarrow> exn \<Rightarrow> sender \<Rightarrow> sender" where
  "onopen_catch e err s =
     (let s1 = s\<lparr>streamingActive := False, chunkTimeout := None\<rparr>;
          s2 = (case err of Exn msg \<Rightarrow>
                  (case send e (ErrorMsg msg) s1 of Inl _ \<Rightarrow> s1 | Inr s' \<Rightarrow> s'))
      in s2\<lparr>channelClosed := True\<rparr>)"

definition onopen :: "asset \<Rightarrow> channel_env \<Rightarrow> sender \<Rightarrow> sender" where
  "onopen f e s =
     (case
        (case f of
           NoFile \<Rightarrow>
             (case send e (ErrorMsg ''Audio file not found'') s of
                Inl x \<Rightarrow> Inl x
              | Inr s' \<Rightarrow> Inr (s'\<lparr>channelClosed := True\<rparr>))
         | Unreadable msg \<Rightarrow> Inl (Exn msg, s)
         | File audioBuffer \<Rightarrow>
             (case send e (Metadata (length audioBuffer) (totalChunks audioBuffer) CHUNK_SIZE) s of
                Inl x \<Rightarrow> Inl x
              | Inr s' \<Rightarrow> sendChunk audioBuffer e (s'\<lparr>chunkIndex := 0\<rparr>)))
      of
        Inr s' \<Rightarrow> s'
      | Inl (err, s') \<Rightarrow> onopen_catch e err s')"

text \<open>\<open>onerror\<close>, \<open>onclose\<close> and \<open>onstatechange\<close> of the data channel.\<close>

definition stopStreaming :: "sender \<Rightarrow> sender" where
  "stopStreaming s = s\<lparr>streamingActive := False, chunkTimeout := None\<rparr>"

datatype event =
  TimerFires channel_env
| ChannelError
| ChannelClose
| StateChange ready_state

fun step :: "byte list \<Rightarrow> event \<Rightarrow> sender \<Rightarrow> sender" where
  "step audioBuffer (TimerFires e) s =
     (case uncaught s of
        Some _ \<Rightarrow> s
      | None \<Rightarrow>
         (case chunkTimeout s of
            None \<Rightarrow> s
          | Some d \<Rightarrow>
             (case sendChunk audioBuffer e (s\<lparr>chunkTimeout := None\<rparr>) of
                Inr s' \<Rightarrow> s'
              | Inl (err, s') \<Rightarrow> s'\<lparr>uncaught := Some err\<rparr>)))"
| "step audioBuffer ChannelError s = stopStreaming s"
| "step audioBuffer ChannelClose s = stopStreaming s"
| "step audioBuffer (StateChange rs) s = (if rs = RS_open then s else stopStreaming s)"

fun run :: "byte list \<Rightarrow> event list \<Rightarrow> sender \<Rightarrow> sender" where
  "run audioBuffer [] s = s"
| "run audioBuffer (ev # evs) s = run audioBuffer evs (step audioBuffer ev s)"

text \<open>A stream of an asset that was read: \<open>onopen\<close>, then the events that follow.\<close>

definition stream :: "byte list \<Rightarrow> channel_env \<Rightarrow> event list \<Rightarrow> sender" where
  "stream audioBuffer e0 evs = run audioBuffer evs (onopen (File audioBuffer) e0 initial_sender)"

text \<open>The binary payloads among the messages sent, in order.\<close>

fun binaries :: "message list \<Rightarrow> byte list list" where
  "binaries [] = []"
| "binaries (Binary b # ms) = b # binaries ms"
| "binaries (m # ms) = binaries ms"

text \<open>An observation under which nothing interrupts the sender.\<close>

definition uninterrupted :: "channel_env \<Rightarrow> bool" where
  "uninterrupted e =
     (readyState e = RS_open \<and> connectionState e \<noteq> CS_failed \<and>
      connectionState e \<noteq> CS_disconnected \<and> connectionState e \<noteq> CS_closed \<and>
      \<not> sendThrows e)"

definition belowMark :: "channel_env \<Rightarrow> bool" where
  "belowMark e = (bufferedAmount e < 262144)"

text \<open>
  The invariant of a stream: the log is the metadata followed by the chunks below the
  cursor, in order (and, for an empty asset only, \<open>complete\<close>), and a timer is pending only
  while a chunk is due. \<open>live\<close> adds that a due chunk has its timer armed.
\<close>

definition metadataOf :: "byte list \<Rightarrow> message" where
  "metadataOf audioBuffer = Metadata (length audioBuffer) (totalChunks audioBuffer) CHUNK_SIZE"

definition chunkMessages :: "byte list \<Rightarrow> nat \<Rightarrow> message list" where
  "chunkMessages audioBuffer n = map (\<lambda>i. Binary (chunkAt audioBuffer i)) [0..<n]"

definition sender_inv :: "byte list \<Rightarrow> sender \<Rightarrow> bool" where
  "sender_inv audioBuffer s =
     (chunkIndex s \<le> totalChunks audioBuffer \<and>
      (chunkTimeout s = None \<or> chunkIndex s < totalChunks audioBuffer \<and> streamingActive s) \<and>
      (sent s = metadataOf audioBuffer # chunkMessages audioBuffer (chunkIndex s) \<or>
       sent s = metadataOf audioBuffer # chunkMessages audioBuffer (chunkIndex s) @ [Complete] \<and>
         audioBuffer = [] \<and> \<not> streamingActive s))"

definition live :: "byte list \<Rightarrow> sender \<Rightarrow> bool" where
  "live ab s = (sender_inv ab s \<and> uncaught s = None \<and>
                (chunkIndex s = totalChunks ab \<or> chunkTimeout s = Some 50))"


definition quiet :: "nat \<Rightarrow> channel_env" where
  "quiet gauge =
     \<lparr>readyState = RS_open, connectionState = CS_connected, bufferedAmount = gauge,
      sendThrows = False\<rparr>"

text \<open>An asset of 200,000 bytes whose four chunks differ in their bytes.\<close>

definition fourTones :: "byte list" where
  "fourTones = replicate 65536 1 @ replicate 65536 2 @ replicate 65536 3 @ replicate 3392 4"

subsection \<open>Properties of the sender\<close>

lemma chunkMessages_Suc:
  "chunkMessages ab (Suc n) = chunkMessages ab n @ [Binary (chunkAt ab n)]"
  by (simp add: chunkMessages_def)

lemma totalChunks_Nil: "totalChunks [] = 0"
  by (simp add: totalChunks_def CHUNK_SIZE_def)

lemma totalChunks_eq_0 [simp]: "totalChunks ab = 0 \<longleftrightarrow> ab = []"
  by (cases ab) (simp_all add: totalChunks_def CHUNK_SIZE_def)

lemma sendChunk_due_inv:
  assumes "sender_inv ab s" "chunkIndex s < totalChunks ab" "chunkTimeout s = None"
  shows "\<exists>s'. sendChunk ab e s = Inr s' \<and> sender_inv ab s' \<and> uncaught s' = uncaught s"
  using assms
  by (auto simp: sendChunk_def sender_inv_def send_def schedule_def chunkMessages_Suc totalChunks_Nil
      split: if_splits)

lemma step_inv:
  assumes "sender_inv ab s"
  shows "sender_inv ab (step ab ev s)"
proof (cases ev)
  case (TimerFires e)
  show ?thesis
  proof (cases "uncaught s = None \<and> chunkTimeout s \<noteq> None")
    case True
    then obtain d where d: "chunkTimeout s = Some d" by auto
    let ?s0 = "s\<lparr>chunkTimeout := None\<rparr>"
    from assms d have "sender_inv ab ?s0" "chunkIndex ?s0 < totalChunks ab" "chunkTimeout ?s0 = None"
      by (auto simp: sender_inv_def)
    from sendChunk_due_inv[OF this, of e] obtain s' where
      "sendChunk ab e ?s0 = Inr s'" "sender_inv ab s'" by blast
    with True d TimerFires show ?thesis by simp
  next
    case False
    with TimerFires assms show ?thesis by (auto split: option.splits)
  qed
qed (use assms in \<open>auto simp: stopStreaming_def sender_inv_def\<close>)

lemma run_inv: "sender_inv ab s \<Longrightarrow> sender_inv ab (run ab evs s)"
  by (induction evs arbitrary: s) (simp_all add: step_inv)

lemma onopen_inv:
  assumes "\<not> sendThrows e0"
  shows "sender_inv ab (onopen (File ab) e0 initial_sender)"
  using assms
  by (auto simp: onopen_def sendChunk_def sender_inv_def send_def schedule_def initial_sender_def
      chunkMessages_def metadataOf_def
      split: if_splits)

lemma stream_inv: "\<not> sendThrows e0 \<Longrightarrow> sender_inv ab (stream ab e0 evs)"
  unfolding stream_def by (rule run_inv) (rule onopen_inv)

lemma run_no_timer:
  "chunkTimeout s = None \<Longrightarrow>
     sent (run ab evs s) = sent s \<and> chunkIndex (run ab evs s) = chunkIndex s \<and>
     chunkTimeout (run ab evs s) = None"
proof (induction evs arbitrary: s)
  case (Cons ev evs)
  have "chunkTimeout (step ab ev s) = None \<and> sent (step ab ev s) = sent s \<and>
        chunkIndex (step ab ev s) = chunkIndex s"
    using Cons.prems by (cases ev) (auto simp: stopStreaming_def split: option.splits)
  with Cons.IH[of "step ab ev s"] show ?case by simp
qed simp

lemma sendChunk_uninterrupted:
  assumes "live ab s" "chunkIndex s < totalChunks ab" "uninterrupted e"
  shows "\<exists>s'. sendChunk ab e (s\<lparr>chunkTimeout := None\<rparr>) = Inr s' \<and> live ab s' \<and>
              chunkIndex s' = (if belowMark e then Suc (chunkIndex s) else chunkIndex s)"
  using assms
  by (auto simp: live_def sendChunk_def sender_inv_def send_def schedule_def chunkMessages_Suc
      uninterrupted_def belowMark_def split: if_splits)

lemma step_uninterrupted:
  assumes "live ab s" "uninterrupted e"
  shows "live ab (step ab (TimerFires e) s) \<and>
         chunkIndex (step ab (TimerFires e) s) =
           (if belowMark e \<and> chunkIndex s < totalChunks ab then Suc (chunkIndex s) else chunkIndex s)"
proof (cases "chunkIndex s < totalChunks ab")
  case True
  with assms have t: "chunkTimeout s = Some 50" "uncaught s = None" by (auto simp: live_def)
  from sendChunk_uninterrupted[OF assms(1) True assms(2)] obtain s' where
    "sendChunk ab e (s\<lparr>chunkTimeout := None\<rparr>) = Inr s'" "live ab s'"
    "chunkIndex s' = (if belowMark e then Suc (chunkIndex s) else chunkIndex s)" by blast
  with t True show ?thesis by simp
next
  case False
  with assms have "chunkIndex s = totalChunks ab" "chunkTimeout s = None" "uncaught s = None"
    by (auto simp: live_def sender_inv_def)
  with assms False show ?thesis by simp
qed

lemma run_progress:
  assumes "live ab s" "\<forall>e\<in>set envs. uninterrupted e"
    "totalChunks ab - chunkIndex s \<le> length (filter belowMark envs)"
  shows "chunkIndex (run ab (map TimerFires envs) s) = totalChunks ab"
  using assms
proof (induction envs arbitrary: s)
  case Nil
  then show ?case by (simp add: live_def sender_inv_def)
next
  case (Cons e envs)
  from Cons.prems have u: "uninterrupted e" by simp
  note st = step_uninterrupted[OF Cons.prems(1) u]
  have "totalChunks ab - chunkIndex (step ab (TimerFires e) s) \<le> length (filter belowMark envs)"
    using st Cons.prems(3) by (auto split: if_splits)
  with Cons.IH[of "step ab (TimerFires e) s"] st Cons.prems(2) show ?case by simp
qed

lemma onopen_live:
  assumes "uninterrupted e0"
  shows "live ab (onopen (File ab) e0 initial_sender) \<and>
         chunkIndex (onopen (File ab) e0 initial_sender) =
           (if belowMark e0 \<and> ab \<noteq> [] then 1 else 0)"
  using assms
  by (auto simp: onopen_def sendChunk_def sender_inv_def send_def schedule_def initial_sender_def
      chunkMessages_def metadataOf_def live_def uninterrupted_def belowMark_def
      split: if_splits)

lemma stream_all_chunks:
  assumes "uninterrupted e0" "\<forall>e\<in>set envs. uninterrupted e"
    "totalChunks ab \<le> length (filter belowMark (e0 # envs))"
  shows "chunkIndex (stream ab e0 (map TimerFires envs)) = totalChunks ab"
proof -
  note o = onopen_live[OF assms(1), of ab]
  have "totalChunks ab - chunkIndex (onopen (File ab) e0 initial_sender)
          \<le> length (filter belowMark envs)"
    using o assms(3) by (auto simp: totalChunks_Nil split: if_splits)
  with o assms(2) show ?thesis unfolding stream_def by (intro run_progress) auto
qed

lemma binaries_append [simp]: "binaries (xs @ ys) = binaries xs @ binaries ys"
  by (induction xs rule: binaries.induct) simp_all

lemma binaries_map_Binary [simp]: "binaries (map (\<lambda>i. Binary (f i)) xs) = map f xs"
  by (induction xs) simp_all

lemma binaries_chunkMessages [simp]: "binaries (chunkMessages ab n) = map (chunkAt ab) [0..<n]"
  by (simp add: chunkMessages_def)

lemma length_chunkAt:
  "length (chunkAt ab i) = min ((i + 1) * CHUNK_SIZE) (length ab) - i * CHUNK_SIZE"
  by (auto simp: chunkAt_def buffer_slice_def Let_def min_def)

lemma totalChunks_ceiling: "totalChunks ab = nat \<lceil>real (length ab) / 65536\<rceil>"
proof -
  define n where "n = length ab"
  define q where "q = (n + 65535) div 65536"
  define r where "r = (n + 65535) mod 65536"
  have "n + 65535 = 65536 * q + r" "r < 65536"
    by (simp_all add: q_def r_def)
  then have le: "n \<le> 65536 * q" and lt: "65536 * q < n + 65536"
    by linarith+
  have "real n \<le> real (65536 * q)" using le of_nat_le_iff by blast
  then have up: "real n / 65536 \<le> real q" by simp
  have "real (65536 * q) < real (n + 65536)" using lt of_nat_less_iff by blast
  then have lo: "real q - 1 < real n / 65536" by simp
  have "\<lceil>real n / 65536\<rceil> = int q"
    by (rule ceiling_unique) (use lo up in simp_all)
  then show ?thesis by (simp add: totalChunks_def CHUNK_SIZE_def n_def q_def)
qed

lemma sizes_200000:
  assumes "length ab = 200000"
  shows "map length (map (chunkAt ab) [0..<4]) = [65536, 65536, 65536, 3392]"
proof -
  have "[0..<4] = [0, 1, 2, 3::nat]" by (simp add: upt_rec)
  then show ?thesis using assms by (simp add: length_chunkAt CHUNK_SIZE_def)
qed

lemma stream_sent_cases:
  "sent (stream ab e0 evs) = [] \<and> chunkIndex (stream ab e0 evs) = 0 \<and>
     chunkTimeout (stream ab e0 evs) = None \<or>
   sender_inv ab (stream ab e0 evs)"
proof (cases "sendThrows e0")
  case True
  then have "chunkTimeout (onopen (File ab) e0 initial_sender) = None \<and>
             sent (onopen (File ab) e0 initial_sender) = [] \<and>
             chunkIndex (onopen (File ab) e0 initial_sender) = 0"
    by (simp add: onopen_def send_def onopen_catch_def initial_sender_def)
  with run_no_timer[of "onopen (File ab) e0 initial_sender" ab evs] show ?thesis
    by (simp add: stream_def)
next
  case False
  then show ?thesis by (simp add: stream_inv)
qed


lemma stream_complete_never:
  assumes "ab \<noteq> []"
  shows "Complete \<notin> set (sent (stream ab e0 evs))"
  using stream_sent_cases[of ab e0 evs] assms
  by (auto simp: sender_inv_def metadataOf_def chunkMessages_def)







lemma stream_final_no_timer:
  assumes "chunkIndex (stream ab e0 evs) = totalChunks ab"
  shows "chunkTimeout (stream ab e0 evs) = None"
  using stream_sent_cases[of ab e0 evs] assms
  by (auto simp: sender_inv_def)

text \<open>
  Claim C1. After the final chunk of an asset that streamed without interruption, the
  sender should send exactly one \<open>complete\<close> message. In the source the timer is re-armed
  only while \<open>chunkIndex < totalChunks\<close>, so after the last chunk \<open>sendChunk\<close> is never
  called again and the branch that sends \<open>complete\<close> is reached only for an empty asset:
  for every non-empty asset, whatever the channel does, \<open>complete\<close> is never sent, and
  once the cursor has passed the final chunk no timer is pending.
\<close>

theorem C1_complete_never_sent_for_nonempty_asset:
  assumes "audioBuffer \<noteq> []"
  shows "Complete \<notin> set (sent (stream audioBuffer e0 evs)) \<and>
         (chunkIndex (stream audioBuffer e0 evs) = totalChunks audioBuffer \<longrightarrow>
          chunkTimeout (stream audioBuffer e0 evs) = None)"
  using assms stream_complete_never[of audioBuffer e0 evs]
    stream_final_no_timer[of audioBuffer e0 evs] by blast

text \<open>
  A one-byte asset on a quiet channel: the metadata and the single chunk are sent, no
  timer is left pending, and no \<open>complete\<close> message follows.
\<close>

theorem C1_one_byte_asset_witness:
  "sent (stream [65] (quiet 0) [TimerFires (quiet 0), TimerFires (quiet 0)]) =
     [Metadata 1 1 65536, Binary [65]] \<and>
   chunkTimeout (stream [65] (quiet 0) [TimerFires (quiet 0), TimerFires (quiet 0)]) = None \<and>
   Complete \<notin> set (sent (stream [65] (quiet 0) [TimerFires (quiet 0), TimerFires (quiet 0)]))"
proof -
  have ne: "[65 :: byte] \<noteq> []" by simp
  have "sent (stream [65] (quiet 0) [TimerFires (quiet 0), TimerFires (quiet 0)]) =
          [Metadata 1 1 65536, Binary [65]] \<and>
        chunkTimeout (stream [65] (quiet 0) [TimerFires (quiet 0), TimerFires (quiet 0)]) = None"
    by (simp add: stream_def onopen_def sendChunk_def send_def schedule_def initial_sender_def
        quiet_def totalChunks_def CHUNK_SIZE_def chunkAt_def buffer_slice_def)
  with C1_complete_never_sent_for_nonempty_asset[OF ne] show ?thesis by blast
qed

lemma concat_chunks_take:
  assumes "0 < c"
  shows "concat (map (\<lambda>i. take (min ((i + 1) * c) (length xs) - i * c) (drop (i * c) xs)) [0..<n]) =
         take (n * c) xs"
proof (induction n)
  case 0
  show ?case by simp
next
  case (Suc n)
  have "take (min ((n + 1) * c) (length xs) - n * c) (drop (n * c) xs) = take c (drop (n * c) xs)"
  proof (cases "(n + 1) * c \<le> length xs")
    case True
    then show ?thesis by (simp add: min_def)
  next
    case False
    then have "min ((n + 1) * c) (length xs) = length xs" by simp
    moreover from False have "length (drop (n * c) xs) \<le> c" by simp
    ultimately show ?thesis by simp
  qed
  then have last: "concat (map (\<lambda>i. take (min ((i + 1) * c) (length xs) - i * c) (drop (i * c) xs))
                        [0..<Suc n]) = take (n * c) xs @ take c (drop (n * c) xs)"
    using Suc.IH by simp
  have "Suc n * c = n * c + c" by simp
  then have "take (Suc n * c) xs = take (n * c) xs @ take c (drop (n * c) xs)"
    by (simp only: take_add)
  with last show ?case by (simp only:)
qed

lemma concat_chunks:
  assumes "length xs \<le> n * c" "0 < c"
  shows "concat (map (\<lambda>i. take (min ((i + 1) * c) (length xs) - i * c) (drop (i * c) xs)) [0..<n]) = xs"
  using concat_chunks_take[OF assms(2), of xs n] assms(1) by simp

text \<open>
  Claim C5. For every asset of \<open>totalBytes\<close> bytes streamed without interruption (the
  channel open, the connection not failed, no send throwing, and the gauge below the mark
  on at least as many timer ticks as there are chunks), the sender first sends the metadata
  message with \<open>totalSize = totalBytes\<close>, \<open>totalChunks = ceil(totalBytes / 65536)\<close> and
  \<open>chunkSize = 65536\<close>, then the chunks in increasing index order, each exactly once,
  chunk \<open>i\<close> being the bytes \<open>[i * 65536, min((i + 1) * 65536, totalBytes))\<close> of the asset
  (so the chunks, concatenated, are the asset); nothing else is sent but \<open>complete\<close>
  messages after the last chunk. A 200,000-byte asset has 4
  chunks, of sizes 65536, 65536, 65536 and 3392.
\<close>

theorem C5_metadata_then_chunks_in_order:
  assumes "uninterrupted e0" and "\<forall>e\<in>set envs. uninterrupted e"
    and "totalChunks audioBuffer \<le> length (filter belowMark (e0 # envs))"
  shows "let s = stream audioBuffer e0 (map TimerFires envs);
             totalBytes = length audioBuffer;
             n = nat \<lceil>real totalBytes / 65536\<rceil>
         in (\<exists>k. sent s =
               Metadata totalBytes n 65536 #
               map (\<lambda>i. Binary (take (min ((i + 1) * 65536) totalBytes - i * 65536)
                                    (drop (i * 65536) audioBuffer)))
                 [0..<n] @
               replicate k Complete) \<and>
            chunkIndex s = n \<and>
            concat (binaries (sent s)) = audioBuffer \<and>
            (totalBytes = 200000 \<longrightarrow>
               n = 4 \<and> map length (binaries (sent s)) = [65536, 65536, 65536, 3392])"
proof -
  let ?s = "stream audioBuffer e0 (map TimerFires envs)"
  let ?n = "totalChunks audioBuffer"
  let ?chunk = "\<lambda>i. take (min ((i + 1) * 65536) (length audioBuffer) - i * 65536)
                      (drop (i * 65536) audioBuffer)"
  have ch: "chunkAt audioBuffer = ?chunk"
    by (rule ext) (simp add: chunkAt_def buffer_slice_def CHUNK_SIZE_def Let_def add.commute)
  have idx: "chunkIndex ?s = ?n" using assms by (rule stream_all_chunks)
  from assms(1) have inv: "sender_inv audioBuffer ?s"
    by (intro stream_inv) (simp add: uninterrupted_def)
  then have "sent ?s = metadataOf audioBuffer # chunkMessages audioBuffer ?n @ replicate 0 Complete \<or>
             sent ?s = metadataOf audioBuffer # chunkMessages audioBuffer ?n @ replicate 1 Complete"
    using idx by (auto simp: sender_inv_def)
  moreover have cs: "CHUNK_SIZE = 65536" by (simp add: CHUNK_SIZE_def)
  ultimately have all:
    "\<exists>k. sent ?s = Metadata (length audioBuffer) ?n 65536 #
            map (\<lambda>i. Binary (?chunk i)) [0..<?n] @ replicate k Complete"
    unfolding metadataOf_def chunkMessages_def cs ch by blast
  have bn: "binaries (sent ?s) = map (chunkAt audioBuffer) [0..<?n]"
    using inv idx by (auto simp: sender_inv_def metadataOf_def)
  have "length audioBuffer \<le> ?n * 65536"
  proof -
    define q where "q = (length audioBuffer + 65535) div 65536"
    define r where "r = (length audioBuffer + 65535) mod 65536"
    have "length audioBuffer + 65535 = 65536 * q + r" "r < 65536"
      by (simp_all add: q_def r_def)
    then have "length audioBuffer \<le> q * 65536" by linarith
    then show ?thesis by (simp add: totalChunks_def CHUNK_SIZE_def q_def)
  qed
  from concat_chunks[OF this] have cc: "concat (binaries (sent ?s)) = audioBuffer"
    unfolding bn ch by simp
  have ex: "?n = 4 \<and> map length (binaries (sent ?s)) = [65536, 65536, 65536, 3392]"
    if "length audioBuffer = 200000"
  proof -
    from that have "?n = 4" by (simp add: totalChunks_def CHUNK_SIZE_def)
    with bn sizes_200000[OF that] show ?thesis by simp
  qed
  from all idx ex cc show ?thesis
    unfolding Let_def totalChunks_ceiling[symmetric] by blast
qed

text \<open>
  The 200,000-byte asset with four distinguishable chunks, and one deferral among the timer
  ticks: each chunk carries its own bytes.
\<close>

theorem C5_asset_200000_witness:
  "uninterrupted (quiet 0) \<and>
   sent (stream fourTones (quiet 0)
      (map TimerFires [quiet 0, quiet 300000, quiet 0, quiet 0])) =
     [Metadata 200000 4 65536, Binary (replicate 65536 1), Binary (replicate 65536 2),
      Binary (replicate 65536 3), Binary (replicate 3392 4)] \<and>
   chunkIndex (stream fourTones (quiet 0)
      (map TimerFires [quiet 0, quiet 300000, quiet 0, quiet 0])) = 4"
proof -
  let ?envs = "[quiet 0, quiet 300000, quiet 0, quiet 0]"
  let ?s = "stream fourTones (quiet 0) (map TimerFires ?envs)"
  have u0: "uninterrupted (quiet 0)" by (simp add: uninterrupted_def quiet_def)
  have u: "\<forall>e\<in>set ?envs. uninterrupted e" by (simp add: uninterrupted_def quiet_def)
  have l: "length fourTones = 200000" by (simp add: fourTones_def)
  have c: "totalChunks fourTones \<le> length (filter belowMark (quiet 0 # ?envs))"
    by (simp add: totalChunks_def l CHUNK_SIZE_def belowMark_def quiet_def)
  have n: "nat \<lceil>real (length fourTones) / 65536\<rceil> = 4"
    using totalChunks_ceiling[of fourTones] by (simp add: totalChunks_def l CHUNK_SIZE_def)
  have up: "[0..<4] = [0, 1, 2, 3::nat]" by (simp add: upt_rec)
  have chunks:
    "map (\<lambda>i. Binary (take (min ((i + 1) * 65536) 200000 - i * 65536) (drop (i * 65536) fourTones)))
       [0, 1, 2, 3] =
     [Binary (replicate 65536 1), Binary (replicate 65536 2), Binary (replicate 65536 3),
      Binary (replicate 3392 4)]"
    by (simp add: fourTones_def)
  from C5_metadata_then_chunks_in_order[OF u0 u c]
  obtain k where
    s: "sent ?s =
          Metadata (length fourTones) (nat \<lceil>real (length fourTones) / 65536\<rceil>) 65536 #
          map (\<lambda>i. Binary (take (min ((i + 1) * 65536) (length fourTones) - i * 65536)
                               (drop (i * 65536) fourTones)))
            [0..<nat \<lceil>real (length fourTones) / 65536\<rceil>] @ replicate k Complete"
    and i: "chunkIndex ?s = nat \<lceil>real (length fourTones) / 65536\<rceil>"
    and cc: "concat (binaries (sent ?s)) = fourTones"
    unfolding Let_def by blast
  have ne: "fourTones \<noteq> []" by (simp add: fourTones_def)
  have "Complete \<notin> set (sent ?s)" using stream_complete_never[OF ne] .
  with s have "k = 0" by (cases k) auto
  with s have "sent ?s = Metadata 200000 4 65536 #
      map (\<lambda>i. Binary (take (min ((i + 1) * 65536) 200000 - i * 65536) (drop (i * 65536) fourTones)))
        [0..<4]"
    unfolding n l by simp
  then have "sent ?s = Metadata 200000 4 65536 #
      map (\<lambda>i. Binary (take (min ((i + 1) * 65536) 200000 - i * 65536) (drop (i * 65536) fourTones)))
        [0, 1, 2, 3]"
    by (simp only: up)
  then have "sent ?s =
     [Metadata 200000 4 65536, Binary (replicate 65536 1), Binary (replicate 65536 2),
      Binary (replicate 65536 3), Binary (replicate 3392 4)]"
    by (simp only: chunks)
  with i n u0 show ?thesis by simp
qed



section \<open>Connection lifecycle manager (useWebRTCConnection)\<close>

text \<open>
  The refs and state of the hook are the fields of \<open>connection\<close>. \<open>peerConnection\<close> holds
  the \<open>connectionState\<close> of the current \<open>RTCPeerConnection\<close> (\<open>None\<close> for a null ref),
  \<open>reconnectTimeout\<close> the delay of the timer the ref points to. \<open>scheduled\<close> logs the delay
  of every \<open>setTimeout\<close> of a retry and \<open>errors\<close> every message given to \<open>onError\<close>,
  oldest first.
\<close>

record config =
  bufferThresholdSeconds :: rat
  maxReconnectAttempts :: nat

definition default_config :: config where
  "default_config = \<lparr>bufferThresholdSeconds = 10, maxReconnectAttempts = 3\<rparr>"

record connection =
  isConnected :: bool
  isConnecting :: bool
  peerConnection :: "connection_state option"
  dataChannel :: bool
  reconnectAttempt :: nat
  reconnectTimeout :: "nat option"
  manualDisconnect :: bool
  scheduled :: "nat list"
  errors :: "string list"

definition initial_connection :: connection where
  "initial_connection =
     \<lparr>isConnected = False, isConnecting = False, peerConnection = None, dataChannel = False,
      reconnectAttempt = 0, reconnectTimeout = None, manualDisconnect = False,
      scheduled = [], errors = []\<rparr>"

definition cleanup :: "connection \<Rightarrow> connection" where
  "cleanup s = s\<lparr>reconnectTimeout := None, dataChannel := False, peerConnection := None\<rparr>"

definition onError :: "string \<Rightarrow> connection \<Rightarrow> connection" where
  "onError msg s = s\<lparr>errors := errors s @ [msg]\<rparr>"

definition handleReconnect :: "config \<Rightarrow> bool \<Rightarrow> connection \<Rightarrow> connection" where
  "handleReconnect cfg isAuto s =
     (if manualDisconnect s then s
      else
        let shouldRetry = reconnectAttempt s < maxReconnectAttempts cfg in
        if shouldRetry \<and> isAuto then
          let attempt = reconnectAttempt s + 1;
              delay = min (1000 * 2 ^ (attempt - 1)) 5000
          in s\<lparr>reconnectAttempt := attempt, reconnectTimeout := Some delay,
                scheduled := scheduled s @ [delay]\<rparr>
        else s)"

text \<open>The test that follows every call of \<open>handleReconnect\<close> in a failure handler.\<close>

definition surfaceIfExhausted :: "config \<Rightarrow> string \<Rightarrow> connection \<Rightarrow> connection" where
  "surfaceIfExhausted cfg msg s =
     (if reconnectAttempt s \<ge> maxReconnectAttempts cfg then onError msg s else s)"

text \<open>
  \<open>connect\<close> up to its first \<open>await\<close>: the guard, the flags, \<open>cleanup\<close>, the new peer
  connection and its data channel. A retry timer that fires calls \<open>connect({isAuto: true})\<close>.
\<close>

definition connect_begin :: "connection \<Rightarrow> connection" where
  "connect_begin s =
     (if peerConnection s = Some CS_connected then s
      else
        let s1 = s\<lparr>manualDisconnect := False, isConnected := False, isConnecting := True\<rparr>;
            s2 = cleanup s1
        in s2\<lparr>peerConnection := Some CS_new, dataChannel := True\<rparr>)"

text \<open>The \<open>catch\<close> of \<open>connect\<close>: signaling failed or the platform threw.\<close>

definition connect_catch :: "config \<Rightarrow> bool \<Rightarrow> connection \<Rightarrow> connection" where
  "connect_catch cfg isAuto s =
     surfaceIfExhausted cfg ''Failed to connect to server. Please try again.''
       (handleReconnect cfg isAuto (s\<lparr>isConnected := False, isConnecting := False\<rparr>))"

text \<open>
  The platform moves the connection the ref points to into a new state; a connection that
  \<open>cleanup\<close> has dropped is no longer seen through the ref. The handler then runs with the
  state \<open>st\<close> of its own connection and assigns no ref.
\<close>

definition connectionStateChanges :: "connection_state \<Rightarrow> connection \<Rightarrow> connection" where
  "connectionStateChanges st s =
     (case peerConnection s of None \<Rightarrow> s | Some _ \<Rightarrow> s\<lparr>peerConnection := Some st\<rparr>)"

definition onconnectionstatechange ::
  "config \<Rightarrow> bool \<Rightarrow> connection_state \<Rightarrow> connection \<Rightarrow> connection" where
  "onconnectionstatechange cfg isAuto st s =
     (case st of
        CS_connected \<Rightarrow> s
      | CS_disconnected \<Rightarrow>
          surfaceIfExhausted cfg ''Connection lost. Please try again.''
            (handleReconnect cfg isAuto (s\<lparr>isConnected := False, isConnecting := False\<rparr>))
      | CS_failed \<Rightarrow>
          surfaceIfExhausted cfg ''Connection lost. Please try again.''
            (handleReconnect cfg isAuto (s\<lparr>isConnected := False, isConnecting := False\<rparr>))
      | CS_closed \<Rightarrow>
          (let s1 = s\<lparr>isConnected := False, isConnecting := False\<rparr> in
           if manualDisconnect s1 then s1
           else surfaceIfExhausted cfg ''Unable to connect. Is the server running?''
                  (handleReconnect cfg isAuto s1))
      | CS_new \<Rightarrow> s
      | CS_connecting \<Rightarrow> s)"

definition dataChannel_onopen :: "connection \<Rightarrow> connection" where
  "dataChannel_onopen s = s\<lparr>isConnected := True, isConnecting := False, reconnectAttempt := 0\<rparr>"

definition dataChannel_onerror :: "config \<Rightarrow> bool \<Rightarrow> connection \<Rightarrow> connection" where
  "dataChannel_onerror cfg isAuto s =
     surfaceIfExhausted cfg ''Data channel error. Please try again.''
       (handleReconnect cfg isAuto (s\<lparr>isConnected := False\<rparr>))"

definition dataChannel_onclose :: "connection \<Rightarrow> connection" where
  "dataChannel_onclose s =
     (let s1 = s\<lparr>isConnected := False, dataChannel := False\<rparr> in
      if \<not> manualDisconnect s1 \<and> peerConnection s1 = Some CS_failed
      then onError ''Connection closed unexpectedly'' s1 else s1)"

definition disconnect :: "connection \<Rightarrow> connection" where
  "disconnect s =
     (cleanup (s\<lparr>manualDisconnect := True\<rparr>))\<lparr>isConnected := False, isConnecting := False\<rparr>"

text \<open>
  One auto-triggered failure of the current connection (\<open>connectionState\<close> becomes
  \<open>failed\<close> in a session started with \<open>isAuto = true\<close>), and the retry that the timer
  starts afterwards.
\<close>

definition autoFailure :: "config \<Rightarrow> connection \<Rightarrow> connection" where
  "autoFailure cfg s =
     onconnectionstatechange cfg True CS_failed (connectionStateChanges CS_failed s)"

definition failThenRetry :: "config \<Rightarrow> connection \<Rightarrow> connection" where
  "failThenRetry cfg s = connect_begin (autoFailure cfg s)"

lemma handleReconnect_auto:
  assumes "\<not> manualDisconnect s" "reconnectAttempt s < maxReconnectAttempts cfg"
  shows "handleReconnect cfg True s =
           s\<lparr>reconnectAttempt := reconnectAttempt s + 1,
             reconnectTimeout := Some (min (1000 * 2 ^ reconnectAttempt s) 5000),
             scheduled := scheduled s @ [min (1000 * 2 ^ reconnectAttempt s) 5000]\<rparr>"
  using assms by (simp add: handleReconnect_def Let_def)

lemma autoFailure_retry:
  assumes "\<not> manualDisconnect s" "reconnectAttempt s < maxReconnectAttempts cfg"
  shows "scheduled (autoFailure cfg s) = scheduled s @ [min (1000 * 2 ^ reconnectAttempt s) 5000]"
    and "reconnectAttempt (autoFailure cfg s) = reconnectAttempt s + 1"
    and "manualDisconnect (autoFailure cfg s) = False"
    and "errors (autoFailure cfg s) =
           (if reconnectAttempt s + 1 \<ge> maxReconnectAttempts cfg
            then errors s @ [''Connection lost. Please try again.''] else errors s)"
  using assms
  by (simp_all add: autoFailure_def connectionStateChanges_def onconnectionstatechange_def
      handleReconnect_def Let_def surfaceIfExhausted_def onError_def split: option.splits)

lemma autoFailure_exhausted:
  assumes "\<not> manualDisconnect s" "reconnectAttempt s \<ge> maxReconnectAttempts cfg"
  shows "scheduled (autoFailure cfg s) = scheduled s"
    and "reconnectAttempt (autoFailure cfg s) = reconnectAttempt s"
    and "reconnectTimeout (autoFailure cfg s) = reconnectTimeout s"
    and "errors (autoFailure cfg s) = errors s @ [''Connection lost. Please try again.'']"
  using assms
  by (simp_all add: autoFailure_def connectionStateChanges_def onconnectionstatechange_def
      handleReconnect_def Let_def surfaceIfExhausted_def onError_def split: option.splits)

lemma connect_begin_after_failure:
  assumes "peerConnection s \<noteq> Some CS_connected"
  shows "scheduled (connect_begin s) = scheduled s"
    and "reconnectAttempt (connect_begin s) = reconnectAttempt s"
    and "manualDisconnect (connect_begin s) = False"
    and "errors (connect_begin s) = errors s"
    and "reconnectTimeout (connect_begin s) = None"
  using assms by (simp_all add: connect_begin_def cleanup_def Let_def)

lemma peerConnection_autoFailure: "peerConnection (autoFailure cfg s) \<noteq> Some CS_connected"
  by (simp add: autoFailure_def connectionStateChanges_def onconnectionstatechange_def
      handleReconnect_def Let_def surfaceIfExhausted_def onError_def split: option.splits)

lemma failThenRetry_retry:
  assumes "\<not> manualDisconnect s" "reconnectAttempt s < maxReconnectAttempts cfg"
  shows "scheduled (failThenRetry cfg s) = scheduled s @ [min (1000 * 2 ^ reconnectAttempt s) 5000]"
    and "reconnectAttempt (failThenRetry cfg s) = reconnectAttempt s + 1"
    and "manualDisconnect (failThenRetry cfg s) = False"
  using autoFailure_retry[OF assms] peerConnection_autoFailure[of cfg s]
  by (simp_all add: failThenRetry_def connect_begin_after_failure)

text \<open>
  Claim C2. With \<open>maxReconnectAttempts = 3\<close>, the claim (and the repository's design
  documents: "500ms, 1s, 2s, 4s") give the backoff delays before attempts 1, 2 and 3 as
  500, 1000 and 2000 ms. The source computes \<open>min(1000 * 2^(attempt - 1), 5000)\<close>: in any
  run of three consecutive auto-triggered failures the delays scheduled are 1000, 2000 and
  4000 ms. The rest of the claim holds in the code: \<open>reconnectAttempt\<close> is 3 after the
  third failure, and the next failure schedules no fourth retry and gives \<open>onError\<close> a
  message.
\<close>

theorem C2_backoff_delays_in_the_code:
  assumes "maxReconnectAttempts cfg = 3" "\<not> manualDisconnect s" "reconnectAttempt s = 0"
  shows "let s3 = autoFailure cfg (failThenRetry cfg (failThenRetry cfg s));
             s4 = autoFailure cfg (connect_begin s3)
         in scheduled s3 = scheduled s @ [1000, 2000, 4000] \<and>
            reconnectAttempt s3 = 3 \<and>
            scheduled s4 = scheduled s3 \<and>
            reconnectTimeout s4 = None \<and>
            reconnectAttempt s4 = 3 \<and>
            errors s4 = errors s3 @ [''Connection lost. Please try again.'']"
proof -
  let ?s1 = "failThenRetry cfg s"
  let ?s2 = "failThenRetry cfg ?s1"
  let ?s3 = "autoFailure cfg ?s2"
  let ?c = "connect_begin ?s3"
  have a1: "scheduled ?s1 = scheduled s @ [1000]" "reconnectAttempt ?s1 = 1" "\<not> manualDisconnect ?s1"
    using failThenRetry_retry[of s cfg] assms by simp_all
  have a2: "scheduled ?s2 = scheduled s @ [1000, 2000]" "reconnectAttempt ?s2 = 2" "\<not> manualDisconnect ?s2"
    using failThenRetry_retry[of ?s1 cfg] a1 assms by simp_all
  have a3: "scheduled ?s3 = scheduled s @ [1000, 2000, 4000]" "reconnectAttempt ?s3 = 3"
    "\<not> manualDisconnect ?s3"
    using autoFailure_retry[of ?s2 cfg] a2 assms by simp_all
  have c: "scheduled ?c = scheduled ?s3" "reconnectAttempt ?c = 3" "\<not> manualDisconnect ?c"
    "errors ?c = errors ?s3" "reconnectTimeout ?c = None"
    using connect_begin_after_failure[of ?s3] peerConnection_autoFailure[of cfg ?s2] a3 by simp_all
  have a4: "scheduled (autoFailure cfg ?c) = scheduled ?s3" "reconnectAttempt (autoFailure cfg ?c) = 3"
    "reconnectTimeout (autoFailure cfg ?c) = None"
    "errors (autoFailure cfg ?c) = errors ?s3 @ [''Connection lost. Please try again.'']"
    using autoFailure_exhausted[of ?c cfg] c assms by simp_all
  show ?thesis unfolding Let_def using a3 a4 by simp
qed

text \<open>Three failures from the initial state, with the default configuration.\<close>

theorem C2_three_failures_witness:
  "scheduled (autoFailure default_config
      (failThenRetry default_config (failThenRetry default_config initial_connection))) =
     [1000, 2000, 4000] \<and>
   reconnectAttempt (autoFailure default_config
      (failThenRetry default_config (failThenRetry default_config initial_connection))) = 3"
proof -
  have h: "maxReconnectAttempts default_config = 3" "\<not> manualDisconnect initial_connection"
    "reconnectAttempt initial_connection = 0" "scheduled initial_connection = []"
    by (simp_all add: default_config_def initial_connection_def)
  from C2_backoff_delays_in_the_code[OF h(1-3)] h(4) show ?thesis
    unfolding Let_def by simp
qed

text \<open>
  Claim C4, as amended. \<open>reconnectAttempt\<close> is 0 immediately after every data-channel open;
  \<open>disconnect\<close> does not touch the counter, which keeps the value it had.
\<close>

theorem C4_reset_on_open_only:
  "reconnectAttempt (dataChannel_onopen s) = 0 \<and>
   reconnectAttempt (disconnect s) = reconnectAttempt s"
  by (simp add: dataChannel_onopen_def disconnect_def cleanup_def)

text \<open>Opening the data channel after one failure brings the counter from 1 back to 0.\<close>

theorem C4_open_after_failure_witness:
  "reconnectAttempt (autoFailure default_config (connect_begin initial_connection)) = 1 \<and>
   reconnectAttempt
     (dataChannel_onopen (autoFailure default_config (connect_begin initial_connection))) = 0"
proof -
  have "reconnectAttempt (autoFailure default_config (connect_begin initial_connection)) = 1"
    by (simp add: autoFailure_def connectionStateChanges_def onconnectionstatechange_def
        handleReconnect_def surfaceIfExhausted_def connect_begin_def cleanup_def initial_connection_def
        default_config_def Let_def)
  with C4_reset_on_open_only[of "autoFailure default_config (connect_begin initial_connection)"]
  show ?thesis by simp
qed

text \<open>
  Claim C4, as stated, fails: after one auto-triggered failure the counter is 1, and a manual
  \<open>disconnect\<close> leaves it at 1.
\<close>

theorem C4_disconnect_keeps_counter_counterexample:
  "reconnectAttempt (disconnect (autoFailure default_config (connect_begin initial_connection))) \<noteq> 0"
  by (simp add: disconnect_def cleanup_def autoFailure_def connectionStateChanges_def
      onconnectionstatechange_def handleReconnect_def surfaceIfExhausted_def connect_begin_def initial_connection_def
      default_config_def Let_def)

section \<open>Decoder state and playback (useAudioDecoder, useAudioPlayback)\<close>

text \<open>
  JavaScript numbers that hold seconds are modelled as rationals: the decimal literals
  \<open>0.99\<close>, \<open>1.1\<close> and \<open>1.2\<close> of the source are the fractions they denote, and the
  arithmetic is exact.
\<close>

datatype ctx_state = Running | Suspended | Closed

record audio_context =
  ctxState :: ctx_state
  currentTime :: rat

record audio_buffer =
  duration :: rat
  sampleRate :: nat
  numberOfChannels :: nat
  frames :: nat

text \<open>
  What the platform does when \<open>AudioContextManager.ensureContext\<close> asks: the context a
  \<open>new AudioContext()\<close> yields, and whether \<open>resume()\<close> succeeds.
\<close>

record platform =
  freshContext :: audio_context
  resumeOk :: bool

definition ensureContext :: "platform \<Rightarrow> audio_context option \<Rightarrow> audio_context" where
  "ensureContext pf ctx =
     (let c0 = (case ctx of
                  Some c \<Rightarrow> if ctxState c = Closed then None else Some c
                | None \<Rightarrow> None);
          c1 = (case c0 of None \<Rightarrow> freshContext pf | Some c \<Rightarrow> c)
      in if ctxState c1 = Suspended
         then (if resumeOk pf then c1\<lparr>ctxState := Running\<rparr> else c1)
         else c1)"

text \<open>
  The refs and state of \<open>useAudioPlayback\<close>. \<open>managerContext\<close> is the manager's context
  (\<open>getContext()\<close>), \<open>sourceNode\<close> the identity of the active source node, and \<open>sources\<close>
  counts the source nodes created so far, so that each new node has a fresh identity.
\<close>

record playback =
  isPlaying :: bool
  isPaused :: bool
  isBuffering :: bool
  managerContext :: "audio_context option"
  sourceNode :: "nat option"
  startTime :: rat
  pausedTime :: rat
  playbackOffset :: rat
  hasUserGesture :: bool
  currentBufferDuration :: rat
  sources :: nat

definition createAudioSource ::
  "audio_context option \<Rightarrow> audio_buffer option \<Rightarrow> rat \<Rightarrow> nat \<Rightarrow> exn + (nat \<times> rat \<times> rat)" where
  "createAudioSource ctx audioBuffer offset fresh =
     (case ctx of
        None \<Rightarrow> Inl (Exn ''AudioContext and AudioBuffer are required'')
      | Some c \<Rightarrow>
         (case audioBuffer of
            None \<Rightarrow> Inl (Exn ''AudioContext and AudioBuffer are required'')
          | Some b \<Rightarrow> Inr (fresh, currentTime c, offset)))"

definition play ::
  "platform \<Rightarrow> audio_buffer option \<Rightarrow> rat option \<Rightarrow> playback \<Rightarrow>
     (exn \<times> playback) + (playback \<times> bool)" where
  "play pf audioBuffer resumeOffset s =
     (case audioBuffer of
        None \<Rightarrow> Inr (s, False)
      | Some b \<Rightarrow>
         (let ctx = ensureContext pf (managerContext s);
              s0 = s\<lparr>managerContext := Some ctx\<rparr>;
              currentOffset =
                (case resumeOffset of
                   Some r \<Rightarrow> r
                 | None \<Rightarrow>
                    (case sourceNode s0 of
                       Some _ \<Rightarrow> playbackOffset s0 + (currentTime ctx - startTime s0)
                     | None \<Rightarrow> pausedTime s0));
              s1 = s0\<lparr>sourceNode := None\<rparr>
          in case createAudioSource (Some ctx) (Some b) currentOffset (sources s1) of
               Inl err \<Rightarrow> Inl (err, s1)
             | Inr (source, start, off) \<Rightarrow>
                 Inr (s1\<lparr>startTime := start, playbackOffset := currentOffset,
                          currentBufferDuration := duration b, sourceNode := Some source,
                          sources := sources s1 + 1,
                          isPlaying := True, isPaused := False, isBuffering := False\<rparr>, True)))"



definition getCurrentPlaybackPosition :: "playback \<Rightarrow> rat" where
  "getCurrentPlaybackPosition s =
     (case sourceNode s of
        None \<Rightarrow> 0
      | Some _ \<Rightarrow>
         (case managerContext s of
            None \<Rightarrow> 0
          | Some ctx \<Rightarrow>
             (let elapsed = currentTime ctx - startTime s;
                  position = playbackOffset s + elapsed
              in min position (currentBufferDuration s))))"


definition initial_playback :: playback where
  "initial_playback =
     \<lparr>isPlaying = False, isPaused = False, isBuffering = False, managerContext = None,
      sourceNode = None, startTime = 0, pausedTime = 0, playbackOffset = 0,
      hasUserGesture = False, currentBufferDuration = 0, sources = 0\<rparr>"

text \<open>A source of the given duration that started at offset 0 and has played for \<open>t\<close> seconds.\<close>

definition playingFor :: "rat \<Rightarrow> rat \<Rightarrow> playback" where
  "playingFor d t =
     initial_playback\<lparr>isPlaying := True, hasUserGesture := True,
        managerContext := Some \<lparr>ctxState = Running, currentTime = t\<rparr>,
        sourceNode := Some 0, currentBufferDuration := d, sources := 1\<rparr>"


subsection \<open>The decoder\<close>

record decoder =
  bufferedSeconds :: rat
  rawChunks :: "byte list list"
  accumulatedBuffer :: "byte list option"
  decodedBuffers :: "audio_buffer list"
  isDecoding :: bool
  lastDecodedBytes :: nat
  audioContext :: bool

definition initial_decoder :: decoder where
  "initial_decoder =
     \<lparr>bufferedSeconds = 0, rawChunks = [], accumulatedBuffer = None, decodedBuffers = [],
      isDecoding = False, lastDecodedBytes = 0, audioContext = False\<rparr>"

definition estimateBufferedDuration :: "nat \<Rightarrow> rat" where
  "estimateBufferedDuration totalBytes = of_nat totalBytes / (12 * 1024)"

definition accumulateChunks :: "byte list list \<Rightarrow> byte list \<times> nat" where
  "accumulateChunks chunks =
     (let totalLength = foldl (\<lambda>sum chunk. sum + length chunk) 0 chunks
      in (concat chunks, totalLength))"

definition getDecodedBuffer :: "decoder \<Rightarrow> audio_buffer option" where
  "getDecodedBuffer d = (case decodedBuffers d of [] \<Rightarrow> None | b # _ \<Rightarrow> Some b)"

definition hasDecodedBuffer :: "decoder \<Rightarrow> bool" where
  "hasDecodedBuffer d = (length (decodedBuffers d) > 0)"

text \<open>
  \<open>tryDecode\<close> awaits the platform twice. The outcome of \<open>ensureContextReady\<close> is an
  input (\<open>NoEnsure\<close> when no such function was given to the hook); the call is taken to
  complete before any other callback runs. The decode itself is in flight between
  \<open>tryDecode_begin\<close>, which returns what the closure holds (the snapshot and its size),
  and \<open>tryDecode_finish\<close>, which receives the decoder's outcome.
\<close>

datatype ctx_ready = NoEnsure | EnsureResolves | EnsureRejects

record pending_decode =
  snapshot :: "byte list"
  currentBufferSize :: nat

definition tryDecode_begin ::
  "bool \<Rightarrow> ctx_ready \<Rightarrow> decoder \<Rightarrow> decoder \<times> pending_decode option" where
  "tryDecode_begin forceMode ready d0 =
     (case (if \<not> audioContext d0 \<and> accumulatedBuffer d0 \<noteq> None
            then (case ready of
                    EnsureResolves \<Rightarrow> Some (d0\<lparr>audioContext := True\<rparr>)
                  | EnsureRejects \<Rightarrow> None
                  | NoEnsure \<Rightarrow> None)
            else Some d0)
      of
        None \<Rightarrow> (d0, None)
      | Some d \<Rightarrow>
         (case accumulatedBuffer d of
            None \<Rightarrow> (d, None)
          | Some acc \<Rightarrow>
             if \<not> audioContext d \<or> isDecoding d then (d, None)
             else
               let currentBufferSize = length acc;
                   hasGrown = (of_nat currentBufferSize > (of_nat (lastDecodedBytes d) :: rat) * (12 / 10));
                   shouldDecode = (forceMode \<or> length (decodedBuffers d) = 0 \<or> hasGrown)
               in if \<not> shouldDecode then (d, None)
                  else (d\<lparr>isDecoding := True\<rparr>,
                        Some \<lparr>snapshot = acc, currentBufferSize = currentBufferSize\<rparr>)))"

definition tryDecode_finish ::
  "pending_decode \<Rightarrow> exn + audio_buffer \<Rightarrow> decoder \<Rightarrow>
     (exn \<times> decoder) + (decoder \<times> audio_buffer option)" where
  "tryDecode_finish p outcome d =
     (case (case outcome of
              Inr audioBuffer \<Rightarrow>
                Inr (d\<lparr>decodedBuffers := [audioBuffer], bufferedSeconds := duration audioBuffer,
                       lastDecodedBytes := currentBufferSize p\<rparr>, Some audioBuffer)
            | Inl error \<Rightarrow> Inr (d, None))
      of
        Inr (d', r) \<Rightarrow> Inr (d'\<lparr>isDecoding := False\<rparr>, r)
      | Inl (err, d') \<Rightarrow> Inl (err, d'\<lparr>isDecoding := False\<rparr>))"

definition addChunk ::
  "config \<Rightarrow> byte list \<Rightarrow> ctx_ready \<Rightarrow> decoder \<Rightarrow> decoder \<times> pending_decode option" where
  "addChunk cfg arrayBuffer ready d =
     (let d1 = d\<lparr>rawChunks := rawChunks d @ [arrayBuffer]\<rparr>;
          (buffer, totalBytes) = accumulateChunks (rawChunks d1);
          d2 = d1\<lparr>accumulatedBuffer := Some buffer\<rparr>;
          estimatedDuration = estimateBufferedDuration totalBytes;
          d3 = (if length (decodedBuffers d2) = 0
                then d2\<lparr>bufferedSeconds := estimatedDuration\<rparr> else d2);
          shouldAttemptDecode =
            (estimatedDuration \<ge> bufferThresholdSeconds cfg \<or>
             (length (decodedBuffers d3) > 0 \<and>
              of_nat totalBytes > (of_nat (lastDecodedBytes d3) :: rat) * (12 / 10)))
      in if shouldAttemptDecode \<and> \<not> isDecoding d3
         then tryDecode_begin False ready d3 else (d3, None))"

definition reset :: "decoder \<Rightarrow> decoder" where
  "reset d =
     d\<lparr>rawChunks := [], accumulatedBuffer := None, decodedBuffers := [], isDecoding := False,
       lastDecodedBytes := 0, bufferedSeconds := 0\<rparr>"

text \<open>
  A session of the decoder: chunks arrive, \<open>tryDecode\<close> is called (by \<open>addChunk\<close>, by the
  periodic check, on \<open>complete\<close>, on an error, on Play), and the platform's decoder answers
  the decode in flight. There is no \<open>reset\<close> within a session.
\<close>

datatype decoder_event =
  AddChunk "byte list" ctx_ready
| TryDecode bool ctx_ready
| DecodeDone "exn + audio_buffer"

type_synonym decoder_session = "decoder \<times> pending_decode option"

definition inFlight :: "pending_decode option \<Rightarrow> pending_decode option \<Rightarrow> pending_decode option" where
  "inFlight started before = (case started of Some q \<Rightarrow> Some q | None \<Rightarrow> before)"

fun decoder_step :: "config \<Rightarrow> decoder_event \<Rightarrow> decoder_session \<Rightarrow> decoder_session" where
  "decoder_step cfg (AddChunk arrayBuffer ready) (d, p) =
     (case addChunk cfg arrayBuffer ready d of (d', started) \<Rightarrow> (d', inFlight started p))"
| "decoder_step cfg (TryDecode forceMode ready) (d, p) =
     (case tryDecode_begin forceMode ready d of (d', started) \<Rightarrow> (d', inFlight started p))"
| "decoder_step cfg (DecodeDone outcome) (d, p) =
     (case p of
        None \<Rightarrow> (d, None)
      | Some q \<Rightarrow>
         (case tryDecode_finish q outcome d of
            Inr (d', r) \<Rightarrow> (d', None)
          | Inl (err, d') \<Rightarrow> (d', None)))"

fun decoder_run :: "config \<Rightarrow> decoder_event list \<Rightarrow> decoder_session \<Rightarrow> decoder_session" where
  "decoder_run cfg [] ds = ds"
| "decoder_run cfg (ev # evs) ds = decoder_run cfg evs (decoder_step cfg ev ds)"

text \<open>
  The invariant of a session: the accumulation holds the bytes received; a decode is in
  flight exactly while \<open>isDecoding\<close> is set, so there is at most one; and the size recorded
  with it lies between \<open>lastDecodedBytes\<close> and the size of the accumulation.
\<close>

definition accumulatedSize :: "decoder \<Rightarrow> nat" where
  "accumulatedSize d = (case accumulatedBuffer d of None \<Rightarrow> 0 | Some acc \<Rightarrow> length acc)"

definition decoder_inv :: "decoder_session \<Rightarrow> bool" where
  "decoder_inv ds =
     (case ds of (d, p) \<Rightarrow>
        lastDecodedBytes d \<le> accumulatedSize d \<and>
        accumulatedSize d = length (concat (rawChunks d)) \<and>
        (case p of
           None \<Rightarrow> isDecoding d = False
         | Some q \<Rightarrow> isDecoding d = True \<and>
                     lastDecodedBytes d \<le> currentBufferSize q \<and>
                     currentBufferSize q \<le> accumulatedSize d))"

subsection \<open>Effects of the coordinator (useBufferReplacement, useAutoStartPlayback)\<close>


definition resetTrackingEffect :: "rat \<times> playback \<Rightarrow> rat \<times> playback" where
  "resetTrackingEffect st =
     (case st of (lastBufferDuration, s) \<Rightarrow> if \<not> isPlaying s then (0, s) else st)"

definition autoStartEffect :: "config \<Rightarrow> platform \<Rightarrow> decoder \<Rightarrow> playback \<Rightarrow> playback" where
  "autoStartEffect cfg pf d s =
     (let shouldAutoStart =
            (isBuffering s \<and> bufferedSeconds d \<ge> bufferThresholdSeconds cfg \<and>
             \<not> isPlaying s \<and> \<not> isPaused s \<and> hasUserGesture s \<and> hasDecodedBuffer d)
      in if shouldAutoStart then
           (let s1 = s\<lparr>isBuffering := False\<rparr>
            in case getDecodedBuffer d of
                 Some buffer \<Rightarrow>
                   (case play pf (Some buffer) None s1 of
                      Inr (s', started) \<Rightarrow> s'
                    | Inl (err, s') \<Rightarrow> s')
               | None \<Rightarrow> s1)
         else s)"

text \<open>
  The second effect of \<open>useAutoStartPlayback\<close> reads the props of the render (\<open>r\<close>) and
  the gesture ref.
\<close>

definition clearBufferingEffect :: "config \<Rightarrow> decoder \<Rightarrow> playback \<Rightarrow> playback \<Rightarrow> playback" where
  "clearBufferingEffect cfg d r s =
     (if bufferedSeconds d \<ge> bufferThresholdSeconds cfg \<and> isBuffering r \<and> \<not> isPlaying r
      then (if \<not> hasUserGesture s then s\<lparr>isBuffering := False\<rparr> else s)
      else s)"

definition useAutoStartPlayback :: "config \<Rightarrow> platform \<Rightarrow> decoder \<Rightarrow> playback \<Rightarrow> playback" where
  "useAutoStartPlayback cfg pf d r = clearBufferingEffect cfg d r (autoStartEffect cfg pf d r)"

text \<open>States and inputs for the examples.\<close>

definition decodedUnit :: "rat \<Rightarrow> decoder" where
  "decodedUnit secs =
     initial_decoder\<lparr>bufferedSeconds := secs, audioContext := True,
        decodedBuffers := [\<lparr>duration = secs, sampleRate = 44100, numberOfChannels = 2,
                            frames = 0\<rparr>]\<rparr>"

definition quietPlatform :: platform where
  "quietPlatform = \<lparr>freshContext = \<lparr>ctxState = Running, currentTime = 0\<rparr>, resumeOk = True\<rparr>"

definition readyWithoutGesture :: playback where
  "readyWithoutGesture = initial_playback\<lparr>isBuffering := True\<rparr>"

definition tenSeconds :: audio_buffer where
  "tenSeconds = \<lparr>duration = 10, sampleRate = 44100, numberOfChannels = 2, frames = 441000\<rparr>"

definition truncatedThenDecoded :: "decoder_event list" where
  "truncatedThenDecoded =
     [AddChunk (replicate 130000 0) EnsureResolves,
      DecodeDone (Inl (Exn ''EncodingError'')),
      AddChunk (replicate 10 0) EnsureResolves]"

subsection \<open>Properties of the decoder and of playback\<close>

text \<open>
  Claim C10. \<open>getCurrentPlaybackPosition\<close> returns 0 when no source node is active or no
  audio context exists; otherwise it returns the minimum of (playback offset + context time
  elapsed since the start) and the duration of the playing unit, so the reported position
  never exceeds that duration.
\<close>

theorem C10_position_clamped_to_duration:
  "(sourceNode s = None \<or> managerContext s = None \<longrightarrow> getCurrentPlaybackPosition s = 0) \<and>
   (\<forall>src ctx. sourceNode s = Some src \<and> managerContext s = Some ctx \<longrightarrow>
      getCurrentPlaybackPosition s =
        min (playbackOffset s + (currentTime ctx - startTime s)) (currentBufferDuration s) \<and>
      getCurrentPlaybackPosition s \<le> currentBufferDuration s)"
  by (auto simp: getCurrentPlaybackPosition_def Let_def split: option.splits)

text \<open>Three seconds into an 8-second source, nine seconds into it, and before any playback.\<close>

theorem C10_position_witness:
  "getCurrentPlaybackPosition (playingFor 8 3) = 3 \<and>
   getCurrentPlaybackPosition (playingFor 8 9) = 8 \<and>
   getCurrentPlaybackPosition initial_playback = 0"
proof -
  have a: "sourceNode (playingFor 8 3) = Some 0 \<and>
           managerContext (playingFor 8 3) = Some \<lparr>ctxState = Running, currentTime = 3\<rparr>"
    and b: "sourceNode (playingFor 8 9) = Some 0 \<and>
           managerContext (playingFor 8 9) = Some \<lparr>ctxState = Running, currentTime = 9\<rparr>"
    and c: "sourceNode initial_playback = None \<or> managerContext initial_playback = None"
    by (simp_all add: playingFor_def initial_playback_def)
  from C10_position_clamped_to_duration[of "playingFor 8 3"] a
  have "getCurrentPlaybackPosition (playingFor 8 3) =
          min (playbackOffset (playingFor 8 3) + (3 - startTime (playingFor 8 3)))
              (currentBufferDuration (playingFor 8 3))"
    by auto
  moreover from C10_position_clamped_to_duration[of "playingFor 8 9"] b
  have "getCurrentPlaybackPosition (playingFor 8 9) =
          min (playbackOffset (playingFor 8 9) + (9 - startTime (playingFor 8 9)))
              (currentBufferDuration (playingFor 8 9))"
    by auto
  moreover from C10_position_clamped_to_duration[of initial_playback] c
  have "getCurrentPlaybackPosition initial_playback = 0" by blast
  ultimately show ?thesis by (simp add: playingFor_def initial_playback_def)
qed




lemma foldl_lengths: "foldl (\<lambda>sum chunk. sum + length chunk) n chunks = n + length (concat chunks)"
  by (induction chunks arbitrary: n) simp_all

lemma accumulateChunks_concat: "accumulateChunks chunks = (concat chunks, length (concat chunks))"
  by (simp add: accumulateChunks_def foldl_lengths)

lemma accumulatedSize_update [simp]:
  "accumulatedSize (d\<lparr>audioContext := a\<rparr>) = accumulatedSize d"
  "accumulatedSize (d\<lparr>isDecoding := b\<rparr>) = accumulatedSize d"
  "accumulatedSize (d\<lparr>bufferedSeconds := r\<rparr>) = accumulatedSize d"
  "accumulatedSize (d\<lparr>decodedBuffers := bs\<rparr>) = accumulatedSize d"
  "accumulatedSize (d\<lparr>lastDecodedBytes := n\<rparr>) = accumulatedSize d"
  "accumulatedSize (d\<lparr>rawChunks := cs\<rparr>) = accumulatedSize d"
  "accumulatedSize (d\<lparr>accumulatedBuffer := Some acc\<rparr>) = length acc"
  by (simp_all add: accumulatedSize_def)

lemma accumulatedSize_Some: "accumulatedBuffer d = Some acc \<Longrightarrow> accumulatedSize d = length acc"
  by (simp add: accumulatedSize_def)

lemma tryDecode_begin_inv:
  assumes "decoder_inv (d, p)" "tryDecode_begin forceMode ready d = (d', started)"
  shows "decoder_inv (d', inFlight started p) \<and> lastDecodedBytes d' = lastDecodedBytes d \<and>
         decodedBuffers d' = decodedBuffers d"
  using assms
  by (auto simp: tryDecode_begin_def decoder_inv_def inFlight_def accumulatedSize_Some Let_def
      split: option.splits ctx_ready.splits if_splits)

lemma addChunk_inv:
  assumes "decoder_inv (d, p)" "addChunk cfg arrayBuffer ready d = (d', started)"
  shows "decoder_inv (d', inFlight started p) \<and> lastDecodedBytes d' = lastDecodedBytes d \<and>
         decodedBuffers d' = decodedBuffers d"
proof -
  define d3 where "d3 = (let d2 = d\<lparr>rawChunks := rawChunks d @ [arrayBuffer],
                         accumulatedBuffer := Some (concat (rawChunks d @ [arrayBuffer]))\<rparr>
       in if length (decodedBuffers d2) = 0
          then d2\<lparr>bufferedSeconds := estimateBufferedDuration (length (concat (rawChunks d @ [arrayBuffer])))\<rparr>
          else d2)"
  have i3: "decoder_inv (d3, p)" "lastDecodedBytes d3 = lastDecodedBytes d"
    "decodedBuffers d3 = decodedBuffers d"
    using assms(1)
    by (auto simp: d3_def decoder_inv_def Let_def split: option.splits)
  from assms(2) have "(d', started) = (d3, None) \<or> (d', started) = tryDecode_begin False ready d3"
    by (auto simp: addChunk_def accumulateChunks_concat d3_def Let_def split: if_splits)
  then show ?thesis
  proof
    assume "(d', started) = (d3, None)"
    with i3 show ?thesis by (simp add: inFlight_def)
  next
    assume "(d', started) = tryDecode_begin False ready d3"
    from tryDecode_begin_inv[OF i3(1) this[symmetric]] i3 show ?thesis by simp
  qed
qed

lemma decoder_step_inv:
  assumes "decoder_inv ds"
  shows "decoder_inv (decoder_step cfg ev ds) \<and>
         lastDecodedBytes (fst ds) \<le> lastDecodedBytes (fst (decoder_step cfg ev ds))"
proof -
  obtain d p where ds: "ds = (d, p)" by (cases ds)
  show ?thesis
  proof (cases ev)
    case (AddChunk b r)
    obtain d' st where a: "addChunk cfg b r d = (d', st)" by (cases "addChunk cfg b r d")
    from addChunk_inv[OF assms[unfolded ds] a] a AddChunk ds show ?thesis by simp
  next
    case (TryDecode f r)
    obtain d' st where a: "tryDecode_begin f r d = (d', st)" by (cases "tryDecode_begin f r d")
    from tryDecode_begin_inv[OF assms[unfolded ds] a] a TryDecode ds show ?thesis by simp
  next
    case (DecodeDone outcome)
    with assms ds show ?thesis
      by (auto simp: decoder_inv_def tryDecode_finish_def split: option.splits sum.splits)
  qed
qed

lemma decoder_run_inv: "decoder_inv ds \<Longrightarrow> decoder_inv (decoder_run cfg evs ds)"
  by (induction evs arbitrary: ds) (simp_all add: decoder_step_inv)

lemma decoder_run_append:
  "decoder_run cfg (xs @ ys) ds = decoder_run cfg ys (decoder_run cfg xs ds)"
  by (induction xs arbitrary: ds) simp_all

lemma decoder_run_mono:
  assumes "decoder_inv ds"
  shows "lastDecodedBytes (fst ds) \<le> lastDecodedBytes (fst (decoder_run cfg evs ds))"
  using assms
proof (induction evs arbitrary: ds)
  case (Cons ev evs)
  from decoder_step_inv[OF Cons.prems, of cfg ev]
  have "decoder_inv (decoder_step cfg ev ds)"
    "lastDecodedBytes (fst ds) \<le> lastDecodedBytes (fst (decoder_step cfg ev ds))" by simp_all
  with Cons.IH[of "decoder_step cfg ev ds"] show ?case by simp
qed simp

lemma initial_decoder_inv: "decoder_inv (initial_decoder, None)"
  by (simp add: decoder_inv_def initial_decoder_def accumulatedSize_def)





text \<open>
  Claim C3. In the buffering state, with the buffered estimate at or above the threshold, a
  decoded unit present and no gesture yet, the coordinator should stay in buffering. The
  second effect of \<open>useAutoStartPlayback\<close> carries the comment "Don't clear if we're waiting
  for user to click play" and then tests \<open>!hasUserGesture()\<close>: exactly when no gesture has
  occurred, it clears the buffering flag. Playback does not start, but the coordinator
  leaves the buffering state.
\<close>

theorem C3_buffering_cleared_without_gesture:
  assumes "isBuffering s" and "\<not> isPlaying s"
    and "bufferedSeconds d \<ge> bufferThresholdSeconds cfg" and "hasDecodedBuffer d"
    and "\<not> hasUserGesture s"
  shows "useAutoStartPlayback cfg pf d s = s\<lparr>isBuffering := False\<rparr> \<and>
         \<not> isBuffering (useAutoStartPlayback cfg pf d s) \<and>
         \<not> isPlaying (useAutoStartPlayback cfg pf d s)"
  using assms
  by (simp add: useAutoStartPlayback_def clearBufferingEffect_def autoStartEffect_def Let_def)

text \<open>Ten seconds decoded with the default threshold of 10 and no gesture.\<close>

theorem C3_ready_without_gesture_witness:
  "isBuffering readyWithoutGesture \<and> \<not> hasUserGesture readyWithoutGesture \<and>
   bufferedSeconds (decodedUnit 10) = 10 \<and> hasDecodedBuffer (decodedUnit 10) \<and>
   \<not> isBuffering (useAutoStartPlayback default_config quietPlatform (decodedUnit 10)
                    readyWithoutGesture)"
proof -
  have h: "isBuffering readyWithoutGesture" "\<not> isPlaying readyWithoutGesture"
    "bufferedSeconds (decodedUnit 10) \<ge> bufferThresholdSeconds default_config"
    "hasDecodedBuffer (decodedUnit 10)" "\<not> hasUserGesture readyWithoutGesture"
    by (simp_all add: readyWithoutGesture_def initial_playback_def decodedUnit_def
        initial_decoder_def default_config_def hasDecodedBuffer_def)
  have b: "bufferedSeconds (decodedUnit 10) = 10"
    by (simp add: decodedUnit_def initial_decoder_def)
  from C3_buffering_cleared_without_gesture[OF h, of quietPlatform] h b show ?thesis by simp
qed

text \<open>
  Claim C9. (1) A successful decode replaces the decoded unit with the new result and sets
  \<open>lastDecodedBytes\<close> to the size recorded with the snapshot, which (2) is the snapshot's
  byte size. (3) A failed decode returns normally, with no result, and leaves the decoded
  unit and \<open>lastDecodedBytes\<close> as they were; (4) so does a call of \<open>tryDecode\<close> that starts
  no decode. (5) Within a session \<open>lastDecodedBytes\<close> never decreases.
\<close>

theorem C9_decode_success_replaces_failure_preserves:
  "(\<forall>p audioBuffer d. \<exists>d'.
      tryDecode_finish p (Inr audioBuffer) d = Inr (d', Some audioBuffer) \<and>
      decodedBuffers d' = [audioBuffer] \<and> getDecodedBuffer d' = Some audioBuffer \<and>
      lastDecodedBytes d' = currentBufferSize p) \<and>
   (\<forall>forceMode ready d d' p. tryDecode_begin forceMode ready d = (d', Some p) \<longrightarrow>
      accumulatedBuffer d = Some (snapshot p) \<and> currentBufferSize p = length (snapshot p)) \<and>
   (\<forall>p err d. \<exists>d'.
      tryDecode_finish p (Inl err) d = Inr (d', None) \<and>
      decodedBuffers d' = decodedBuffers d \<and> lastDecodedBytes d' = lastDecodedBytes d) \<and>
   (\<forall>forceMode ready d.
      decodedBuffers (fst (tryDecode_begin forceMode ready d)) = decodedBuffers d \<and>
      lastDecodedBytes (fst (tryDecode_begin forceMode ready d)) = lastDecodedBytes d) \<and>
   (\<forall>evs ev.
      lastDecodedBytes (fst (decoder_run cfg evs (initial_decoder, None))) \<le>
      lastDecodedBytes (fst (decoder_run cfg (evs @ [ev]) (initial_decoder, None))))"
proof (intro conjI allI impI)
  fix p :: pending_decode and audioBuffer and d :: decoder
  show "\<exists>d'. tryDecode_finish p (Inr audioBuffer) d = Inr (d', Some audioBuffer) \<and>
      decodedBuffers d' = [audioBuffer] \<and> getDecodedBuffer d' = Some audioBuffer \<and>
      lastDecodedBytes d' = currentBufferSize p"
    by (simp add: tryDecode_finish_def getDecodedBuffer_def)
next
  fix forceMode ready and d d' :: decoder and p :: pending_decode
  assume a: "tryDecode_begin forceMode ready d = (d', Some p)"
  then show "accumulatedBuffer d = Some (snapshot p)" "currentBufferSize p = length (snapshot p)"
    by (auto simp: tryDecode_begin_def Let_def split: option.splits ctx_ready.splits if_splits)
next
  fix p :: pending_decode and err and d :: decoder
  show "\<exists>d'. tryDecode_finish p (Inl err) d = Inr (d', None) \<and>
      decodedBuffers d' = decodedBuffers d \<and> lastDecodedBytes d' = lastDecodedBytes d"
    by (simp add: tryDecode_finish_def)
next
  fix forceMode ready and d :: decoder
  show "decodedBuffers (fst (tryDecode_begin forceMode ready d)) = decodedBuffers d"
    "lastDecodedBytes (fst (tryDecode_begin forceMode ready d)) = lastDecodedBytes d"
    by (auto simp: tryDecode_begin_def Let_def split: option.splits ctx_ready.splits if_splits)
next
  fix evs ev
  let ?ds = "decoder_run cfg evs (initial_decoder, None)"
  have "decoder_inv ?ds" by (rule decoder_run_inv) (rule initial_decoder_inv)
  from decoder_step_inv[OF this, of cfg ev]
  show "lastDecodedBytes (fst ?ds) \<le>
        lastDecodedBytes (fst (decoder_run cfg (evs @ [ev]) (initial_decoder, None)))"
    by (simp add: decoder_run_append)
qed

text \<open>
  A decode of truncated data fails and changes nothing; after ten more bytes the next decode
  succeeds and records 130010 bytes.
\<close>

theorem C9_failed_then_successful_decode_witness:
  "lastDecodedBytes (fst (decoder_run default_config truncatedThenDecoded (initial_decoder, None))) = 0 \<and>
   decodedBuffers (fst (decoder_run default_config truncatedThenDecoded (initial_decoder, None))) = [] \<and>
   lastDecodedBytes (fst (decoder_run default_config
      (truncatedThenDecoded @ [DecodeDone (Inr tenSeconds)]) (initial_decoder, None))) = 130010 \<and>
   decodedBuffers (fst (decoder_run default_config
      (truncatedThenDecoded @ [DecodeDone (Inr tenSeconds)]) (initial_decoder, None))) = [tenSeconds]"
proof -
  let ?d = "\<lparr>bufferedSeconds = 65005 / 6144,
             rawChunks = [replicate 130000 0, replicate 10 0],
             accumulatedBuffer = Some (replicate 130010 0), decodedBuffers = [],
             isDecoding = True, lastDecodedBytes = 0, audioContext = True\<rparr>"
  let ?p = "\<lparr>snapshot = replicate 130010 (0 :: byte), currentBufferSize = 130010\<rparr>"
  have r: "decoder_run default_config truncatedThenDecoded (initial_decoder, None) = (?d, Some ?p)"
    by (simp add: truncatedThenDecoded_def addChunk_def accumulateChunks_def
        estimateBufferedDuration_def tryDecode_begin_def tryDecode_finish_def inFlight_def
        initial_decoder_def default_config_def Let_def replicate_add[symmetric])
  from C9_decode_success_replaces_failure_preserves[of default_config]
  obtain d' where d': "tryDecode_finish ?p (Inr tenSeconds) ?d = Inr (d', Some tenSeconds)"
    "decodedBuffers d' = [tenSeconds]" "lastDecodedBytes d' = currentBufferSize ?p"
    by blast
  have "decoder_run default_config (truncatedThenDecoded @ [DecodeDone (Inr tenSeconds)])
          (initial_decoder, None) = (d', None)"
    by (simp add: decoder_run_append r d'(1))
  with r d' show ?thesis by simp
qed

end
